theory Spec2Isabelle
  imports Complex_Main "HOL-Library.Word"
begin

section \<open>ESP32 environment monitor: data model\<close>

text \<open>
  The sketch \<^verbatim>\<open>sketch.ino\<close> samples a DHT22 (temperature, humidity) and a light
  sensor, renders the readings on an OLED in one of two views, drives a buzzer from a
  threshold check, and toggles the view with a debounced push button. Everything runs
  from one non-blocking \<^verbatim>\<open>loop()\<close> that polls \<^verbatim>\<open>millis()\<close>.
\<close>

subsection \<open>Floats\<close>

text \<open>
  A C \<^verbatim>\<open>float\<close> is a not-a-number, an infinity or a finite value. Finite values are
  read as the real number they denote; the thresholds 30.0 and 70.0 are exact binary
  floats, so the comparisons of the sketch are comparisons of these reals. A comparison
  with a not-a-number operand is false, as in IEEE 754.
\<close>

datatype cfloat = NaN | NInf | Fin real | PInf

fun isnan :: "cfloat \<Rightarrow> bool" where
  "isnan NaN = True"
| "isnan _ = False"

fun float_ge :: "cfloat \<Rightarrow> cfloat \<Rightarrow> bool" where
  "float_ge NaN _ = False"
| "float_ge _ NaN = False"
| "float_ge PInf _ = True"
| "float_ge _ NInf = True"
| "float_ge (Fin x) (Fin y) = (y \<le> x)"
| "float_ge (Fin x) PInf = False"
| "float_ge NInf _ = False"

subsection \<open>Constants\<close>

definition LOW :: int where "LOW = 0"
definition HIGH :: int where "HIGH = 1"

definition TEMP_HIGH_THRESHOLD :: cfloat where "TEMP_HIGH_THRESHOLD = Fin 30"
definition HUMID_HIGH_THRESHOLD :: cfloat where "HUMID_HIGH_THRESHOLD = Fin 70"
definition LIGHT_LOW_THRESHOLD :: int where "LIGHT_LOW_THRESHOLD = 1000"

text \<open>\<^verbatim>\<open>unsigned long\<close> is 32 bits wide on the ESP32; \<open>-\<close> on it wraps around.\<close>

type_synonym ulong = "32 word"

definition READ_INTERVAL_MS :: ulong where "READ_INTERVAL_MS = 2000"
definition DISPLAY_INTERVAL_MS :: ulong where "DISPLAY_INTERVAL_MS = 500"
definition BUTTON_DEBOUNCE_MS :: ulong where "BUTTON_DEBOUNCE_MS = 200"

subsection \<open>Readings, display mode, output devices\<close>

record EnvData =
  temperature :: cfloat
  humidity :: cfloat
  lightRaw :: int

datatype DisplayMode = SUMMARY | DETAIL

text \<open>
  The calls the sketch makes on a \<^verbatim>\<open>Print\<close> device (the OLED, the serial port), in
  the order it makes them. What the driver draws for a call is the library's business;
  \<open>PrintFloat x d\<close> is \<^verbatim>\<open>print(x, d)\<close>, a float with \<open>d\<close> decimals.
\<close>

datatype cmd =
    ClearDisplay
  | SetCursor int int
  | SetTextSize int
  | SetTextColorWhite
  | PrintStr string
  | PrintlnStr string
  | Println
  | PrintFloat cfloat nat
  | PrintlnFloat cfloat nat
  | PrintInt int
  | PrintlnInt int
  | Display

text \<open>
  The globals of the sketch, and what it has sent out so far: the levels written to the
  buzzer pin, the frames sent to the OLED (one command list per call of a
  \<^verbatim>\<open>DisplayManager\<close> method) and the serial output, each oldest first.
\<close>

record world =
  currentMode :: DisplayMode
  alarmOn :: bool
  lastReadMillis :: ulong
  lastDisplayMillis :: ulong
  latestData :: EnvData
  lastButtonChange :: ulong
  lastButtonState :: int
  buzzerOut :: "int list"
  oled :: "cmd list list"
  serial :: "cmd list"

section \<open>Operations\<close>

subsection \<open>Display manager\<close>

definition showSummary :: "EnvData \<Rightarrow> bool \<Rightarrow> cmd list" where
  "showSummary data alarm =
     [ClearDisplay, SetCursor 0 0, PrintlnStr ''ENV MONITOR - SUMMARY'', Println,
      PrintStr ''Temp: '']
     @ (if isnan (temperature data) then [PrintlnStr ''ERR'']
        else [PrintFloat (temperature data) 1, PrintlnStr '' C''])
     @ [PrintStr ''Hum : '']
     @ (if isnan (humidity data) then [PrintlnStr ''ERR'']
        else [PrintFloat (humidity data) 1, PrintlnStr '' %''])
     @ [PrintStr ''Light: '', PrintInt (lightRaw data), PrintlnStr '' /4095'',
        Println, PrintStr ''Alarm: '', PrintlnStr (if alarm then ''ON'' else ''OFF''),
        Display]"

definition showDetail :: "EnvData \<Rightarrow> cmd list" where
  "showDetail data =
     [ClearDisplay, SetCursor 0 0, PrintlnStr ''ENV MONITOR - DETAIL'', Println,
      PrintlnStr ''Raw readings:'',
      PrintStr ''T: '',
      PrintlnFloat (if isnan (temperature data) then NaN else temperature data) 2,
      PrintStr ''H: '',
      PrintlnFloat (if isnan (humidity data) then NaN else humidity data) 2,
      PrintStr ''L: '', PrintlnInt (lightRaw data),
      Println, PrintlnStr ''Press button'', PrintlnStr ''to switch mode.'',
      Display]"

subsection \<open>Alarm\<close>

definition updateAlarm :: "EnvData \<Rightarrow> world \<Rightarrow> world" where
  "updateAlarm data w =
     (let tempHigh = (\<not> isnan (temperature data)
                      \<and> float_ge (temperature data) TEMP_HIGH_THRESHOLD);
          humHigh = (\<not> isnan (humidity data)
                     \<and> float_ge (humidity data) HUMID_HIGH_THRESHOLD);
          lightLow = (lightRaw data \<le> LIGHT_LOW_THRESHOLD);
          alarm = (tempHigh \<or> humHigh \<or> lightLow)
      in w\<lparr>alarmOn := alarm,
            buzzerOut := buzzerOut w @ [if alarm then HIGH else LOW]\<rparr>)"

subsection \<open>Button\<close>

text \<open>
  \<open>handleButton state now\<close>: \<open>state\<close> is what \<^verbatim>\<open>digitalRead(BUTTON_PIN)\<close> returned
  and \<open>now\<close> what \<^verbatim>\<open>millis()\<close> returned in this call.
\<close>

definition handleButton :: "int \<Rightarrow> ulong \<Rightarrow> world \<Rightarrow> world" where
  "handleButton state now w =
     (if state \<noteq> lastButtonState w \<and> now - lastButtonChange w > BUTTON_DEBOUNCE_MS
      then
        (let w1 = w\<lparr>lastButtonChange := now, lastButtonState := state\<rparr>
         in if state = HIGH
            then (if currentMode w1 = SUMMARY
                  then w1\<lparr>currentMode := DETAIL\<rparr>
                  else w1\<lparr>currentMode := SUMMARY\<rparr>)
            else w1)
      else w)"

subsection \<open>Setup and loop\<close>

text \<open>
  The globals as their initialisers leave them; \<^verbatim>\<open>latestData\<close> has none and, being
  a global, starts zeroed. Nothing has been sent out yet.
\<close>

definition boot :: world where
  "boot = \<lparr>currentMode = SUMMARY, alarmOn = False,
           lastReadMillis = 0, lastDisplayMillis = 0,
           latestData = \<lparr>temperature = Fin 0, humidity = Fin 0, lightRaw = 0\<rparr>,
           lastButtonChange = 0, lastButtonState = LOW,
           buzzerOut = [], oled = [], serial = []\<rparr>"

text \<open>
  \<open>setup_sketch ok w\<close> is \<^verbatim>\<open>setup()\<close>; \<open>ok\<close> is what the OLED driver's
  \<^verbatim>\<open>begin\<close> returned. The buzzer is switched off; \<^verbatim>\<open>DisplayManager::begin\<close>
  sends one blank frame when the driver started and nothing otherwise; one line goes
  to the serial port. Configuring the pins and starting the serial port, the sensor
  and the bus send nothing and change no global.
\<close>

definition setup_sketch :: "bool \<Rightarrow> world \<Rightarrow> world" where
  "setup_sketch ok w =
     (let w1 = w\<lparr>buzzerOut := buzzerOut w @ [LOW]\<rparr>;
          w2 = (if ok
                then w1\<lparr>oled := oled w1 @ [[ClearDisplay, SetTextSize 1,
                                               SetTextColorWhite, Display]]\<rparr>
                else w1)
      in w2\<lparr>serial := serial w2 @ [PrintlnStr (if ok then ''System init OK.''
                                                else ''OLED init failed!'')]\<rparr>)"

text \<open>
  One pass of \<^verbatim>\<open>loop()\<close> reads the clock, perhaps the sensors, the button, and the
  clock again inside \<^verbatim>\<open>handleButton\<close>. A pass is given by the true time in
  milliseconds since power-up of the two clock reads, by what the sensors return when
  read, and by the level of the button pin.
\<close>

record pass =
  t_loop :: nat
  sensed :: EnvData
  level :: int
  t_button :: nat

text \<open>\<^verbatim>\<open>millis()\<close>: the milliseconds since power-up, in an \<^verbatim>\<open>unsigned long\<close>.\<close>

definition millis :: "nat \<Rightarrow> ulong" where
  "millis t = of_nat t"

text \<open>
  The two timed blocks of \<^verbatim>\<open>loop()\<close>, in its order. \<open>readStep now rd\<close> is the
  periodic sensor read, \<open>rd\<close> being what \<^verbatim>\<open>sensor.read()\<close> returns when called;
  \<^verbatim>\<open>Serial.print\<close> of a float prints two decimals. \<open>displayStep now\<close> is the
  periodic display update. \<^verbatim>\<open>loop()\<close> runs them with one clock value and then
  calls \<^verbatim>\<open>handleButton\<close>, which reads the clock again.
\<close>

definition readStep :: "ulong \<Rightarrow> EnvData \<Rightarrow> world \<Rightarrow> world" where
  "readStep now rd w =
     (if now - lastReadMillis w \<ge> READ_INTERVAL_MS
      then
        (let w1 = w\<lparr>lastReadMillis := now\<rparr>;
             w2 = w1\<lparr>latestData := rd\<rparr>;
             w3 = updateAlarm (latestData w2) w2
         in w3\<lparr>serial := serial w3 @
                  [PrintStr ''T='', PrintFloat (temperature (latestData w3)) 2,
                   PrintStr ''C, H='', PrintFloat (humidity (latestData w3)) 2,
                   PrintStr ''%, L='', PrintlnInt (lightRaw (latestData w3))]\<rparr>)
      else w)"

definition displayStep :: "ulong \<Rightarrow> world \<Rightarrow> world" where
  "displayStep now w =
     (if now - lastDisplayMillis w \<ge> DISPLAY_INTERVAL_MS
      then
        (let w1 = w\<lparr>lastDisplayMillis := now\<rparr>
         in if currentMode w1 = SUMMARY
            then w1\<lparr>oled := oled w1 @ [showSummary (latestData w1) (alarmOn w1)]\<rparr>
            else w1\<lparr>oled := oled w1 @ [showDetail (latestData w1)]\<rparr>)
      else w)"

definition loop :: "pass \<Rightarrow> world \<Rightarrow> world" where
  "loop p w =
     (let now = millis (t_loop p);
          w1 = readStep now (sensed p) w;
          w2 = displayStep now w1
      in handleButton (level p) (millis (t_button p)) w2)"

text \<open>The passes of a run, in order.\<close>

fun run :: "pass list \<Rightarrow> world \<Rightarrow> world" where
  "run [] w = w"
| "run (p # ps) w = run ps (loop p w)"

subsection \<open>Observing a run\<close>

text \<open>
  A poll of the button is the pin level and the clock value \<^verbatim>\<open>handleButton\<close> reads.
  \<open>polls\<close> runs \<^verbatim>\<open>handleButton\<close> over a sequence of polls; \<open>toggles\<close> counts the
  polls of the sequence that flipped \<^verbatim>\<open>currentMode\<close>.
\<close>

fun polls :: "(int \<times> ulong) list \<Rightarrow> world \<Rightarrow> world" where
  "polls [] w = w"
| "polls ((st, now) # ps) w = polls ps (handleButton st now w)"

fun toggles :: "(int \<times> ulong) list \<Rightarrow> world \<Rightarrow> nat" where
  "toggles [] w = 0"
| "toggles ((st, now) # ps) w =
     (if currentMode (handleButton st now w) \<noteq> currentMode w then 1 else 0)
     + toggles ps (handleButton st now w)"

text \<open>The true times (of the button's clock read) of the passes that flipped the mode.\<close>

fun toggle_times :: "pass list \<Rightarrow> world \<Rightarrow> nat list" where
  "toggle_times [] w = []"
| "toggle_times (p # ps) w =
     (if currentMode (loop p w) \<noteq> currentMode w then [t_button p] else [])
     @ toggle_times ps (loop p w)"

text \<open>
  A pass at time \<open>t\<close> with the button at rest: the sensors would return \<open>rd t\<close>, and
  both clock reads return \<open>t\<close>.
\<close>

definition quiet_pass :: "(nat \<Rightarrow> EnvData) \<Rightarrow> nat \<Rightarrow> pass" where
  "quiet_pass rd t = \<lparr>t_loop = t, sensed = rd t, level = LOW, t_button = t\<rparr>"

text \<open>
  Inputs used as examples: a press at 300 ms, a bounce and a release, and a second
  press at 900 ms; a reading whose temperature failed; and a state whose timestamps
  were stored 100 ms before the clock wraps.
\<close>

definition press_release_press :: "pass list" where
  "press_release_press =
     [\<lparr>t_loop = 300, sensed = latestData boot, level = HIGH, t_button = 300\<rparr>,
      \<lparr>t_loop = 350, sensed = latestData boot, level = LOW, t_button = 350\<rparr>,
      \<lparr>t_loop = 600, sensed = latestData boot, level = LOW, t_button = 600\<rparr>,
      \<lparr>t_loop = 900, sensed = latestData boot, level = HIGH, t_button = 900\<rparr>]"

definition sample_reading :: EnvData where
  "sample_reading = \<lparr>temperature = NaN, humidity = Fin 22.5, lightRaw = 1500\<rparr>"

definition before_wrap :: world where
  "before_wrap = boot\<lparr>lastReadMillis := millis 4294967196,
                      lastDisplayMillis := millis 4294967196,
                      lastButtonChange := millis 4294967196\<rparr>"

section \<open>Threshold evaluation\<close>

text \<open>
  C1. \<^verbatim>\<open>updateAlarm\<close> sets the alarm flag to true exactly when the temperature is
  not a not-a-number and at least 30.0, or the humidity is not a not-a-number and at
  least 70.0, or the light is at most 1000, and writes the matching level to the buzzer.
  With temperature and humidity both absent the alarm is decided by the light alone.
\<close>

theorem updateAlarm_iff:
  "(alarmOn (updateAlarm d w) \<longleftrightarrow>
      (temperature d \<noteq> NaN \<and> float_ge (temperature d) (Fin 30))
      \<or> (humidity d \<noteq> NaN \<and> float_ge (humidity d) (Fin 70))
      \<or> lightRaw d \<le> 1000)
   \<and> (alarmOn (updateAlarm (d\<lparr>temperature := Fin x\<rparr>) w) \<longleftrightarrow>
        30 \<le> x
        \<or> (humidity d \<noteq> NaN \<and> float_ge (humidity d) (Fin 70))
        \<or> lightRaw d \<le> 1000)
   \<and> (alarmOn (updateAlarm (d\<lparr>humidity := Fin h\<rparr>) w) \<longleftrightarrow>
        (temperature d \<noteq> NaN \<and> float_ge (temperature d) (Fin 30))
        \<or> 70 \<le> h
        \<or> lightRaw d \<le> 1000)
   \<and> (alarmOn (updateAlarm (d\<lparr>temperature := NaN, humidity := NaN\<rparr>) w) \<longleftrightarrow>
        lightRaw d \<le> 1000)
   \<and> buzzerOut (updateAlarm d w)
       = buzzerOut w @ [if alarmOn (updateAlarm d w) then HIGH else LOW]"
  by (cases "temperature d"; cases "humidity d")
     (simp_all add: updateAlarm_def Let_def TEMP_HIGH_THRESHOLD_def
        HUMID_HIGH_THRESHOLD_def LIGHT_LOW_THRESHOLD_def)

theorem updateAlarm_iff_witness:
  "alarmOn (updateAlarm \<lparr>temperature = NaN, humidity = Fin 71, lightRaw = 1500\<rparr> boot)
   \<and> \<not> alarmOn (updateAlarm \<lparr>temperature = NaN, humidity = NaN, lightRaw = 1500\<rparr> boot)
   \<and> alarmOn (updateAlarm \<lparr>temperature = NaN, humidity = NaN, lightRaw = 1000\<rparr> boot)"
  using updateAlarm_iff [of "\<lparr>temperature = NaN, humidity = Fin 71, lightRaw = 1500\<rparr>" boot 0 0]
    updateAlarm_iff [of "\<lparr>temperature = NaN, humidity = NaN, lightRaw = 1500\<rparr>" boot 0 0]
    updateAlarm_iff [of "\<lparr>temperature = NaN, humidity = NaN, lightRaw = 1000\<rparr>" boot 0 0]
  by simp

section \<open>Debouncer\<close>

text \<open>
  C2. \<^verbatim>\<open>handleButton\<close> accepts the raw level, storing it and the current time,
  exactly when the level differs from the stored one and more than 200 ms (as an
  unsigned difference) have passed since the stored time. Otherwise, in particular when
  the level differs inside the window, nothing at all changes: the timer is not
  restarted.
\<close>

theorem handleButton_accepts:
  "(if state \<noteq> lastButtonState w \<and> 200 < now - lastButtonChange w
    then lastButtonState (handleButton state now w) = state
         \<and> lastButtonChange (handleButton state now w) = now
         \<and> lastButtonState (handleButton state now w) \<noteq> lastButtonState w
         \<and> lastButtonChange (handleButton state now w) \<noteq> lastButtonChange w
    else handleButton state now w = w)"
  by (auto simp: handleButton_def Let_def BUTTON_DEBOUNCE_MS_def)

theorem handleButton_accepts_witness:
  "lastButtonState (handleButton HIGH 201 boot) = HIGH
   \<and> lastButtonChange (handleButton HIGH 201 boot) = 201
   \<and> handleButton HIGH 200 boot = boot
   \<and> handleButton LOW 5000 boot = boot"
  using handleButton_accepts [of HIGH boot 201] handleButton_accepts [of HIGH boot 200]
    handleButton_accepts [of LOW boot 5000]
  by (simp add: boot_def HIGH_def LOW_def)

subsection \<open>Toggles\<close>

lemma polls_fixed:
  "\<forall>(s, t) \<in> set ps. t - lastButtonChange w \<le> 200 \<Longrightarrow> polls ps w = w \<and> toggles ps w = 0"
proof (induction ps)
  case Nil
  then show ?case by simp
next
  case (Cons a ps)
  obtain s t where a: "a = (s, t)" by (cases a)
  from Cons.prems a have "\<not> 200 < t - lastButtonChange w" by (simp add: not_less)
  then have h: "handleButton s t w = w"
    by (simp add: handleButton_def BUTTON_DEBOUNCE_MS_def)
  with Cons a show ?case by simp
qed

lemma handleButton_mode:
  "currentMode (handleButton state now w) \<noteq> currentMode w \<longleftrightarrow>
     state = HIGH \<and> state \<noteq> lastButtonState w \<and> 200 < now - lastButtonChange w"
  by (cases "currentMode w") (auto simp: handleButton_def Let_def BUTTON_DEBOUNCE_MS_def)

text \<open>
  C3. The mode flips only in a poll that accepts a high level (a low-to-high edge), never
  in one that accepts a low level. Once a poll has been accepted at time \<open>now\<close>, no
  poll within the 200 ms after it changes anything, so the accepted poll and any polls
  inside its window flip the mode at most once. From a stable low level, a press, a
  release and a second press, each more than 200 ms after the transition before it,
  flip the mode exactly twice.
\<close>

theorem toggle_rising_edge_only:
  "(currentMode (handleButton state now w) \<noteq> currentMode w \<longleftrightarrow>
      state = HIGH \<and> state \<noteq> lastButtonState w \<and> 200 < now - lastButtonChange w)
   \<and> (state \<noteq> lastButtonState w \<and> 200 < now - lastButtonChange w
        \<and> (\<forall>(s, t) \<in> set ps. t - now \<le> 200)
      \<longrightarrow> toggles ((state, now) # ps) w \<le> 1
          \<and> polls ((state, now) # ps) w = handleButton state now w)
   \<and> (lastButtonState w = LOW \<and> 200 < t1 - lastButtonChange w
        \<and> 200 < t2 - t1 \<and> 200 < t3 - t2
      \<longrightarrow> toggles [(HIGH, t1), (LOW, t2), (HIGH, t3)] w = 2
          \<and> currentMode (polls [(HIGH, t1), (LOW, t2), (HIGH, t3)] w) = currentMode w)"
proof (intro conjI impI)
  show "currentMode (handleButton state now w) \<noteq> currentMode w \<longleftrightarrow>
      state = HIGH \<and> state \<noteq> lastButtonState w \<and> 200 < now - lastButtonChange w"
    by (rule handleButton_mode)
next
  assume a: "state \<noteq> lastButtonState w \<and> 200 < now - lastButtonChange w
        \<and> (\<forall>(s, t) \<in> set ps. t - now \<le> 200)"
  let ?w = "handleButton state now w"
  from a have "lastButtonChange ?w = now"
    by (simp add: handleButton_def Let_def BUTTON_DEBOUNCE_MS_def)
  with a have "\<forall>(s, t) \<in> set ps. t - lastButtonChange ?w \<le> 200" by simp
  from polls_fixed [OF this] show "toggles ((state, now) # ps) w \<le> 1"
    and "polls ((state, now) # ps) w = handleButton state now w" by simp_all
next
  assume a: "lastButtonState w = LOW \<and> 200 < t1 - lastButtonChange w
        \<and> 200 < t2 - t1 \<and> 200 < t3 - t2"
  then show "toggles [(HIGH, t1), (LOW, t2), (HIGH, t3)] w = 2"
    by (cases "currentMode w")
       (simp_all add: handleButton_def Let_def BUTTON_DEBOUNCE_MS_def HIGH_def LOW_def)
  from a show "currentMode (polls [(HIGH, t1), (LOW, t2), (HIGH, t3)] w) = currentMode w"
    by (cases "currentMode w")
       (simp_all add: handleButton_def Let_def BUTTON_DEBOUNCE_MS_def HIGH_def LOW_def)
qed

theorem toggle_rising_edge_only_witness:
  "toggles [(HIGH, 300), (LOW, 350), (HIGH, 420), (LOW, 500)] boot = 1
   \<and> toggles [(HIGH, 300), (LOW, 350), (HIGH, 420), (LOW, 500)] boot \<le> 1
   \<and> toggles [(HIGH, 300), (LOW, 600), (HIGH, 900)] boot = 2
   \<and> currentMode (handleButton LOW 600 (handleButton HIGH 300 boot))
       = currentMode (handleButton HIGH 300 boot)"
  using toggle_rising_edge_only [of HIGH 300 boot "[(LOW, 350), (HIGH, 420), (LOW, 500)]" 300 600 900]
    toggle_rising_edge_only [of LOW 600 "handleButton HIGH 300 boot" "[]" 0 0 0]
  by (simp add: boot_def HIGH_def LOW_def handleButton_def BUTTON_DEBOUNCE_MS_def)

section \<open>View mode\<close>

lemma readStep_button:
  "currentMode (readStep now rd w) = currentMode w
   \<and> lastButtonState (readStep now rd w) = lastButtonState w
   \<and> lastButtonChange (readStep now rd w) = lastButtonChange w"
  by (simp add: readStep_def updateAlarm_def Let_def)

lemma displayStep_button:
  "currentMode (displayStep now w) = currentMode w
   \<and> lastButtonState (displayStep now w) = lastButtonState w
   \<and> lastButtonChange (displayStep now w) = lastButtonChange w"
  by (simp add: displayStep_def Let_def)

lemma loop_mode:
  "currentMode (loop p w) \<noteq> currentMode w \<longleftrightarrow>
     level p = HIGH \<and> level p \<noteq> lastButtonState w
     \<and> 200 < millis (t_button p) - lastButtonChange w"
proof -
  let ?w2 = "displayStep (millis (t_loop p)) (readStep (millis (t_loop p)) (sensed p) w)"
  have "currentMode ?w2 = currentMode w" "lastButtonState ?w2 = lastButtonState w"
    "lastButtonChange ?w2 = lastButtonChange w"
    by (simp_all add: readStep_button displayStep_button)
  with handleButton_mode [of "level p" "millis (t_button p)" ?w2] show ?thesis
    by (simp add: loop_def Let_def)
qed

lemma loop_lastButtonChange:
  "lastButtonChange (loop p w) =
     (if level p \<noteq> lastButtonState w \<and> 200 < millis (t_button p) - lastButtonChange w
      then millis (t_button p) else lastButtonChange w)"
  by (simp add: loop_def Let_def handleButton_def BUTTON_DEBOUNCE_MS_def
      readStep_button displayStep_button)

lemma millis_diff: "a \<le> b \<Longrightarrow> millis b - millis a = of_nat (b - a)"
  by (simp add: millis_def)

lemma millis_gap:
  assumes "a \<le> b" and "(k::ulong) < millis b - millis a"
  shows "a + unat k < b"
proof -
  from assms have "unat k < unat (of_nat (b - a) :: ulong)"
    by (simp add: millis_diff word_less_nat_alt)
  also have "\<dots> \<le> b - a"
    by (simp add: unat_of_nat)
  finally show ?thesis by simp
qed

lemma toggle_times_spaced:
  "lastButtonChange w = millis tc \<Longrightarrow> sorted (tc # map t_button ps) \<Longrightarrow>
   (\<forall>t \<in> set (toggle_times ps w). tc + 200 < t)
   \<and> sorted_wrt (\<lambda>a b. a + 200 < b) (toggle_times ps w)"
proof (induction ps arbitrary: w tc)
  case Nil
  then show ?case by simp
next
  case (Cons p ps)
  let ?acc = "level p \<noteq> lastButtonState w \<and> 200 < millis (t_button p) - lastButtonChange w"
  from Cons.prems have le: "tc \<le> t_button p" and srt: "sorted (t_button p # map t_button ps)"
    and srt': "sorted (tc # map t_button ps)"
    by auto
  show ?case
  proof (cases ?acc)
    case True
    with Cons.prems le have far: "tc + 200 < t_button p"
      using millis_gap [of tc "t_button p" 200] by simp
    from True have "lastButtonChange (loop p w) = millis (t_button p)"
      by (simp add: loop_lastButtonChange)
    from Cons.IH [OF this srt]
    have ih: "\<forall>t \<in> set (toggle_times ps (loop p w)). t_button p + 200 < t"
      and sp: "sorted_wrt (\<lambda>a b. a + 200 < b) (toggle_times ps (loop p w))"
      by simp_all
    from ih far have "\<forall>t \<in> set (toggle_times ps (loop p w)). tc + 200 < t"
      by auto
    with ih sp far show ?thesis by simp
  next
    case False
    then have same: "lastButtonChange (loop p w) = millis tc"
      and nomode: "currentMode (loop p w) = currentMode w"
      using Cons.prems(1) loop_mode [of p w] by (auto simp: loop_lastButtonChange)
    from Cons.IH [OF same srt'] nomode show ?thesis by simp
  qed
qed

lemma loop_lastButtonState:
  "lastButtonState (loop p w) = lastButtonState w \<or> lastButtonState (loop p w) = level p"
  by (simp add: loop_def Let_def handleButton_def readStep_button displayStep_button)

lemma run_lastButtonState:
  "\<forall>p \<in> set ps. level p \<in> {LOW, HIGH} \<Longrightarrow> lastButtonState w \<in> {LOW, HIGH} \<Longrightarrow>
   lastButtonState (run ps w) \<in> {LOW, HIGH}"
proof (induction ps arbitrary: w)
  case Nil
  then show ?case by simp
next
  case (Cons p ps)
  from Cons.prems loop_lastButtonState [of p w]
  have "lastButtonState (loop p w) \<in> {LOW, HIGH}" by auto
  with Cons show ?case by simp
qed

text \<open>
  C4. The mode starts as \<open>SUMMARY\<close>, also after \<^verbatim>\<open>setup()\<close>, and has only the two
  values. A pass of the loop changes it exactly when the button reads high, the stored
  level is not high, and more than 200 ms have passed since the last accepted
  transition; every other pass leaves it as it is. With pin levels that are low or
  high the stored level of every reachable state is low or high, so such a pass is a
  low-to-high edge. In a run from power-up whose clock does not go backwards, any two
  flips of the mode are more than 200 ms apart.
\<close>

theorem mode_changes_on_rising_edge:
  "currentMode boot = SUMMARY
   \<and> currentMode (setup_sketch ok boot) = SUMMARY
   \<and> currentMode w \<in> {SUMMARY, DETAIL}
   \<and> (currentMode (loop p w) \<noteq> currentMode w \<longleftrightarrow>
        level p = HIGH \<and> lastButtonState w \<noteq> HIGH
        \<and> 200 < millis (t_button p) - lastButtonChange w)
   \<and> ((\<forall>q \<in> set qs. level q \<in> {LOW, HIGH}) \<longrightarrow>
        lastButtonState (run qs (setup_sketch ok boot)) \<in> {LOW, HIGH})
   \<and> (sorted (map t_button ps) \<longrightarrow>
        sorted_wrt (\<lambda>a b. a + 200 < b) (toggle_times ps (setup_sketch ok boot)))"
proof -
  have "currentMode (setup_sketch ok boot) = SUMMARY"
    by (simp add: setup_sketch_def boot_def Let_def)
  moreover have "currentMode w \<in> {SUMMARY, DETAIL}"
    by (cases "currentMode w") simp_all
  moreover have "currentMode (loop p w) \<noteq> currentMode w \<longleftrightarrow>
        level p = HIGH \<and> lastButtonState w \<noteq> HIGH
        \<and> 200 < millis (t_button p) - lastButtonChange w"
    using loop_mode [of p w] by auto
  moreover have "sorted (map t_button ps) \<longrightarrow>
        sorted_wrt (\<lambda>a b. a + 200 < b) (toggle_times ps (setup_sketch ok boot))"
  proof
    assume "sorted (map t_button ps)"
    then have "sorted (0 # map t_button ps)" by simp
    moreover have "lastButtonChange (setup_sketch ok boot) = millis 0"
      by (simp add: setup_sketch_def boot_def Let_def millis_def)
    ultimately show "sorted_wrt (\<lambda>a b. a + 200 < b) (toggle_times ps (setup_sketch ok boot))"
      using toggle_times_spaced by blast
  qed
  moreover have "(\<forall>q \<in> set qs. level q \<in> {LOW, HIGH}) \<longrightarrow>
        lastButtonState (run qs (setup_sketch ok boot)) \<in> {LOW, HIGH}"
  proof
    assume "\<forall>q \<in> set qs. level q \<in> {LOW, HIGH}"
    moreover have "lastButtonState (setup_sketch ok boot) \<in> {LOW, HIGH}"
      by (simp add: setup_sketch_def boot_def Let_def)
    ultimately show "lastButtonState (run qs (setup_sketch ok boot)) \<in> {LOW, HIGH}"
      by (rule run_lastButtonState)
  qed
  ultimately show ?thesis by (simp add: boot_def)
qed

lemma press_release_press_times:
  "toggle_times press_release_press (setup_sketch True boot) = [300, 900]"
  by (simp add: press_release_press_def loop_mode loop_lastButtonChange setup_sketch_def boot_def Let_def millis_def HIGH_def LOW_def
    loop_def readStep_def displayStep_def handleButton_def BUTTON_DEBOUNCE_MS_def
   READ_INTERVAL_MS_def DISPLAY_INTERVAL_MS_def)

theorem mode_changes_on_rising_edge_witness:
  "sorted_wrt (\<lambda>a b. a + 200 < b) (toggle_times press_release_press (setup_sketch True boot))
   \<and> toggle_times press_release_press (setup_sketch True boot) = [300, 900]
   \<and> lastButtonState (run press_release_press (setup_sketch True boot)) \<in> {LOW, HIGH}"
proof -
  have "sorted (map t_button press_release_press)"
    and "\<forall>q \<in> set press_release_press. level q \<in> {LOW, HIGH}"
    by (simp_all add: press_release_press_def)
  with mode_changes_on_rising_edge [of True boot "hd press_release_press"
      press_release_press press_release_press]
  show ?thesis
    by (simp add: press_release_press_times)
qed

section \<open>Rendering\<close>

text \<open>
  C7. The Summary frame for an absent temperature, humidity 22.5, light 1500 and no
  alarm prints \<open>ERR\<close> after \<open>Temp: \<close>, the humidity with one decimal followed by
  \<open> %\<close>, the light as \<open>1500\<close> followed by \<open> /4095\<close>, and \<open>OFF\<close> after \<open>Alarm: \<close>.
  In general a temperature or humidity that is a number is printed with one decimal
  and its unit, and one that is not a number as \<open>ERR\<close>.
\<close>

theorem showSummary_frame:
  "showSummary \<lparr>temperature = NaN, humidity = Fin 22.5, lightRaw = 1500\<rparr> False =
     [ClearDisplay, SetCursor 0 0, PrintlnStr ''ENV MONITOR - SUMMARY'', Println,
      PrintStr ''Temp: '', PrintlnStr ''ERR'',
      PrintStr ''Hum : '', PrintFloat (Fin 22.5) 1, PrintlnStr '' %'',
      PrintStr ''Light: '', PrintInt 1500, PrintlnStr '' /4095'',
      Println, PrintStr ''Alarm: '', PrintlnStr ''OFF'', Display]
   \<and> showSummary d a =
     [ClearDisplay, SetCursor 0 0, PrintlnStr ''ENV MONITOR - SUMMARY'', Println,
      PrintStr ''Temp: '']
     @ (if temperature d = NaN then [PrintlnStr ''ERR'']
        else [PrintFloat (temperature d) 1, PrintlnStr '' C''])
     @ [PrintStr ''Hum : '']
     @ (if humidity d = NaN then [PrintlnStr ''ERR'']
        else [PrintFloat (humidity d) 1, PrintlnStr '' %''])
     @ [PrintStr ''Light: '', PrintInt (lightRaw d), PrintlnStr '' /4095'',
        Println, PrintStr ''Alarm: '', PrintlnStr (if a then ''ON'' else ''OFF''),
        Display]"
  by (cases "temperature d"; cases "humidity d") (simp_all add: showSummary_def)

text \<open>
  C8. The Detail frame prints temperature and humidity with two decimals, passing a
  not-a-number on to the driver as it is and never printing the \<open>ERR\<close> of the Summary
  frame, then the raw light value and the two fixed lines \<open>Press button\<close>,
  \<open>to switch mode.\<close>.
\<close>

theorem showDetail_frame:
  "showDetail \<lparr>temperature = NaN, humidity = Fin 22.5, lightRaw = 1500\<rparr> =
     [ClearDisplay, SetCursor 0 0, PrintlnStr ''ENV MONITOR - DETAIL'', Println,
      PrintlnStr ''Raw readings:'',
      PrintStr ''T: '', PrintlnFloat NaN 2,
      PrintStr ''H: '', PrintlnFloat (Fin 22.5) 2,
      PrintStr ''L: '', PrintlnInt 1500,
      Println, PrintlnStr ''Press button'', PrintlnStr ''to switch mode.'', Display]
   \<and> showDetail d =
     [ClearDisplay, SetCursor 0 0, PrintlnStr ''ENV MONITOR - DETAIL'', Println,
      PrintlnStr ''Raw readings:'',
      PrintStr ''T: '', PrintlnFloat (temperature d) 2,
      PrintStr ''H: '', PrintlnFloat (humidity d) 2,
      PrintStr ''L: '', PrintlnInt (lightRaw d),
      Println, PrintlnStr ''Press button'', PrintlnStr ''to switch mode.'', Display]
   \<and> PrintlnStr ''ERR'' \<notin> set (showDetail d)
   \<and> PrintlnStr ''ERR'' \<in> set (showSummary (d\<lparr>temperature := NaN\<rparr>) a)
   \<and> PrintlnStr ''ERR'' \<in> set (showSummary (d\<lparr>humidity := NaN\<rparr>) a)"
  by (cases "temperature d"; cases "humidity d") (simp_all add: showDetail_def showSummary_def)

section \<open>Scheduler\<close>

subsection \<open>Sampling comes before rendering\<close>

lemma handleButton_outputs:
  "oled (handleButton s n w) = oled w \<and> latestData (handleButton s n w) = latestData w
   \<and> alarmOn (handleButton s n w) = alarmOn w \<and> buzzerOut (handleButton s n w) = buzzerOut w
   \<and> serial (handleButton s n w) = serial w
   \<and> lastReadMillis (handleButton s n w) = lastReadMillis w
   \<and> lastDisplayMillis (handleButton s n w) = lastDisplayMillis w"
  by (simp add: handleButton_def Let_def)

lemma displayStep_data:
  "latestData (displayStep now w) = latestData w \<and> alarmOn (displayStep now w) = alarmOn w
   \<and> buzzerOut (displayStep now w) = buzzerOut w \<and> serial (displayStep now w) = serial w
   \<and> lastReadMillis (displayStep now w) = lastReadMillis w"
  by (simp add: displayStep_def Let_def)

lemma displayStep_due:
  "500 \<le> now - lastDisplayMillis w \<Longrightarrow>
   oled (displayStep now w) =
     oled w @ [if currentMode w = SUMMARY then showSummary (latestData w) (alarmOn w)
               else showDetail (latestData w)]"
  by (simp add: displayStep_def Let_def DISPLAY_INTERVAL_MS_def)

lemma readStep_due:
  "2000 \<le> now - lastReadMillis w \<Longrightarrow>
   latestData (readStep now rd w) = rd
   \<and> alarmOn (readStep now rd w) = alarmOn (updateAlarm rd w)
   \<and> buzzerOut (readStep now rd w) = buzzerOut (updateAlarm rd w)
   \<and> lastReadMillis (readStep now rd w) = now"
  by (simp add: readStep_def Let_def READ_INTERVAL_MS_def updateAlarm_def)

lemma readStep_display:
  "lastDisplayMillis (readStep now rd w) = lastDisplayMillis w
   \<and> oled (readStep now rd w) = oled w"
  by (simp add: readStep_def Let_def updateAlarm_def)

text \<open>
  C5. In a pass where both the sample and the render are due, the frame rendered in
  that pass shows the reading just taken and the alarm state computed from it. In any
  pass where a render is due, the frame shows the reading and alarm state the pass
  ends with, so never anything older than a sample of the same pass.
\<close>

theorem sample_before_render:
  "(2000 \<le> millis (t_loop p) - lastReadMillis w
      \<and> 500 \<le> millis (t_loop p) - lastDisplayMillis w \<longrightarrow>
      oled (loop p w) =
        oled w @ [if currentMode w = SUMMARY
                  then showSummary (sensed p) (alarmOn (updateAlarm (sensed p) w))
                  else showDetail (sensed p)]
      \<and> latestData (loop p w) = sensed p
      \<and> alarmOn (loop p w) = alarmOn (updateAlarm (sensed p) w))
   \<and> (500 \<le> millis (t_loop p) - lastDisplayMillis w \<longrightarrow>
      oled (loop p w) =
        oled w @ [if currentMode w = SUMMARY
                  then showSummary (latestData (loop p w)) (alarmOn (loop p w))
                  else showDetail (latestData (loop p w))])"
proof (intro conjI impI)
  let ?now = "millis (t_loop p)"
  let ?w1 = "readStep ?now (sensed p) w"
  have lp: "loop p w = handleButton (level p) (millis (t_button p)) (displayStep ?now ?w1)"
    by (simp add: loop_def Let_def)
  {
    assume d: "500 \<le> ?now - lastDisplayMillis w"
    then have "500 \<le> ?now - lastDisplayMillis ?w1" by (simp add: readStep_display)
    from displayStep_due [OF this]
    show "oled (loop p w) =
        oled w @ [if currentMode w = SUMMARY
                  then showSummary (latestData (loop p w)) (alarmOn (loop p w))
                  else showDetail (latestData (loop p w))]"
      by (simp add: lp handleButton_outputs displayStep_data readStep_display readStep_button)
  }
  note general = this
  assume a: "2000 \<le> ?now - lastReadMillis w \<and> 500 \<le> ?now - lastDisplayMillis w"
  then have r: "2000 \<le> ?now - lastReadMillis w" by simp
  show ld: "latestData (loop p w) = sensed p"
    by (simp add: lp handleButton_outputs displayStep_data readStep_due [OF r])
  show al: "alarmOn (loop p w) = alarmOn (updateAlarm (sensed p) w)"
    by (simp add: lp handleButton_outputs displayStep_data readStep_due [OF r])
  from a general ld al
  show "oled (loop p w) =
        oled w @ [if currentMode w = SUMMARY
                  then showSummary (sensed p) (alarmOn (updateAlarm (sensed p) w))
                  else showDetail (sensed p)]"
    by simp
qed

theorem sample_before_render_witness:
  "oled (loop (quiet_pass (\<lambda>t. sample_reading) 2000) (setup_sketch True boot)) =
     oled (setup_sketch True boot) @ [showSummary sample_reading False]
   \<and> latestData (loop (quiet_pass (\<lambda>t. sample_reading) 2000) (setup_sketch True boot))
       = sample_reading"
  using sample_before_render [of "quiet_pass (\<lambda>t. sample_reading) 2000" "setup_sketch True boot"]
  by (simp add: quiet_pass_def sample_reading_def millis_def setup_sketch_def boot_def Let_def
      updateAlarm_def TEMP_HIGH_THRESHOLD_def HUMID_HIGH_THRESHOLD_def LIGHT_LOW_THRESHOLD_def)

subsection \<open>The first 2100 milliseconds\<close>

lemma run_append: "run (ps @ qs) w = run qs (run ps w)"
  by (induction ps arbitrary: w) simp_all

lemma millis_elapsed:
  assumes "e < 2 ^ 32"
  shows "unat (millis (t0 + e) - millis t0) = e"
proof -
  have "millis (t0 + e) - millis t0 = (of_nat e :: ulong)"
    by (simp add: millis_def)
  with assms show ?thesis
    by (simp add: unat_of_nat)
qed

lemma millis_since:
  assumes "r \<le> t" and "t - r < 2 ^ 32"
  shows "unat (millis t - millis r) = t - r"
  using millis_elapsed [OF assms(2), of r] assms(1) by simp

lemma quiet_idle:
  assumes "lastButtonState w = LOW"
    and "lastReadMillis w = millis r" and "lastDisplayMillis w = millis d"
    and "r \<le> t" and "d \<le> t" and "t < r + 2000" and "t < d + 500"
  shows "loop (quiet_pass rd t) w = w"
proof -
  from assms have "unat (millis t - millis r) = t - r" and "unat (millis t - millis d) = t - d"
    by (simp_all add: millis_since)
  with assms have "\<not> 2000 \<le> millis t - lastReadMillis w"
    and "\<not> 500 \<le> millis t - lastDisplayMillis w"
    by (simp_all add: word_le_nat_alt)
  with assms(1) show ?thesis
    by (simp add: loop_def readStep_def displayStep_def handleButton_def quiet_pass_def
        READ_INTERVAL_MS_def DISPLAY_INTERVAL_MS_def Let_def)
qed

lemma run_idle:
  assumes "lastButtonState w = LOW"
    and "lastReadMillis w = millis r" and "lastDisplayMillis w = millis d"
    and "r \<le> a" and "d \<le> a" and "a + n \<le> r + 2000" and "a + n \<le> d + 500"
  shows "run (map (quiet_pass rd) [a..<a + n]) w = w"
  using assms(6,7)
proof (induction n)
  case 0
  then show ?case by simp
next
  case (Suc n)
  from Suc.prems assms(4,5) have "loop (quiet_pass rd (a + n)) w = w"
    by (intro quiet_idle [OF assms(1-3)]) simp_all
  with Suc show ?case
    by (simp add: run_append)
qed

lemma run_skip:
  assumes "lastButtonState w = LOW"
    and "lastReadMillis w = millis r" and "lastDisplayMillis w = millis d"
    and "r \<le> a" and "d \<le> a" and "b \<le> r + 2000" and "b \<le> d + 500"
    and "a \<le> b" and "b < c" and "b' = Suc b"
  shows "run (map (quiet_pass rd) [a..<c]) w
         = run (map (quiet_pass rd) [b'..<c]) (loop (quiet_pass rd b) w)"
proof -
  from assms(8) obtain n where n: "b = a + n"
    using le_Suc_ex by blast
  from assms(8,9) have "[a..<c] = [a..<b] @ [b..<c]"
    using upt_add_eq_append [of a b "c - b"] by simp
  also from assms(9,10) have "[b..<c] = b # [b'..<c]"
    by (simp add: upt_conv_Cons)
  finally have "[a..<c] = [a..<a + n] @ b # [b'..<c]"
    by (simp add: n)
  moreover have "run (map (quiet_pass rd) [a..<a + n]) w = w"
    using assms(6,7) by (intro run_idle [OF assms(1-5)]) (simp_all add: n)
  ultimately show ?thesis
    by (simp add: run_append)
qed

lemma run_rest:
  assumes "lastButtonState w = LOW"
    and "lastReadMillis w = millis r" and "lastDisplayMillis w = millis d"
    and "r \<le> a" and "d \<le> a" and "c \<le> r + 2000" and "c \<le> d + 500" and "a \<le> c"
  shows "run (map (quiet_pass rd) [a..<c]) w = w"
proof -
  from assms(8) obtain n where n: "c = a + n"
    using le_Suc_ex by blast
  with assms(6,7) show ?thesis
    using run_idle [OF assms(1-5), of n rd] by simp
qed

lemma render_only_pass:
  assumes "lastButtonState w = LOW" and "currentMode w = SUMMARY"
    and "lastReadMillis w = millis r" and "lastDisplayMillis w = millis d"
    and "r \<le> t" and "t < r + 2000" and "d + 500 \<le> t" and "t < 2 ^ 32"
  shows "loop (quiet_pass rd t) w
         = w\<lparr>lastDisplayMillis := millis t,
              oled := oled w @ [showSummary (latestData w) (alarmOn w)]\<rparr>"
proof -
  from assms have "unat (millis t - millis r) = t - r" and "unat (millis t - millis d) = t - d"
    by (simp_all add: millis_since)
  with assms have "\<not> 2000 \<le> millis t - lastReadMillis w"
    and "500 \<le> millis t - lastDisplayMillis w"
    by (simp_all add: word_le_nat_alt)
  with assms(1,2) show ?thesis
    by (simp add: loop_def readStep_def displayStep_def handleButton_def quiet_pass_def
        READ_INTERVAL_MS_def DISPLAY_INTERVAL_MS_def Let_def)
qed

lemma sample_render_pass:
  assumes "lastButtonState w = LOW" and "currentMode w = SUMMARY"
    and "lastReadMillis w = millis r" and "lastDisplayMillis w = millis d"
    and "r + 2000 \<le> t" and "d + 500 \<le> t" and "t < 2 ^ 32"
  shows "loop (quiet_pass rd t) w
         = w\<lparr>lastReadMillis := millis t, latestData := rd t,
              alarmOn := alarmOn (updateAlarm (rd t) w),
              buzzerOut := buzzerOut (updateAlarm (rd t) w),
              serial := serial w @
                [PrintStr ''T='', PrintFloat (temperature (rd t)) 2,
                 PrintStr ''C, H='', PrintFloat (humidity (rd t)) 2,
                 PrintStr ''%, L='', PrintlnInt (lightRaw (rd t))],
              lastDisplayMillis := millis t,
              oled := oled w @ [showSummary (rd t) (alarmOn (updateAlarm (rd t) w))]\<rparr>"
proof -
  from assms have "unat (millis t - millis r) = t - r" and "unat (millis t - millis d) = t - d"
    by (simp_all add: millis_since)
  with assms have "2000 \<le> millis t - lastReadMillis w"
    and "500 \<le> millis t - lastDisplayMillis w"
    by (simp_all add: word_le_nat_alt)
  with assms(1,2) show ?thesis
    by (simp add: loop_def readStep_def displayStep_def handleButton_def quiet_pass_def
        READ_INTERVAL_MS_def DISPLAY_INTERVAL_MS_def Let_def updateAlarm_def)
qed

lemma setup_sketch_fields:
  "lastButtonState (setup_sketch ok boot) = LOW"
  "currentMode (setup_sketch ok boot) = SUMMARY"
  "lastReadMillis (setup_sketch ok boot) = millis 0"
  "lastDisplayMillis (setup_sketch ok boot) = millis 0"
  "lastButtonChange (setup_sketch ok boot) = millis 0"
  "latestData (setup_sketch ok boot) = \<lparr>temperature = Fin 0, humidity = Fin 0, lightRaw = 0\<rparr>"
  "alarmOn (setup_sketch ok boot) = False"
  "buzzerOut (setup_sketch ok boot) = [LOW]"
  by (simp_all add: setup_sketch_def boot_def Let_def millis_def)

text \<open>
  C6. From power-up, with a pass at every millisecond from 0 to 2100 and the button at
  rest, there is exactly one sample (at 2000 ms: one write to the buzzer, one serial
  record) and exactly four renders (at 500, 1000, 1500 and 2000 ms). The first three
  frames show the zeroed reading, the fourth, rendered in the pass of the sample, shows
  the reading just taken and its alarm state.
\<close>

theorem first_2100_ms:
  "(let w0 = setup_sketch ok boot;
        w = run (map (quiet_pass rd) [0..<2101]) w0;
        zero = \<lparr>temperature = Fin 0, humidity = Fin 0, lightRaw = 0\<rparr>
    in lastReadMillis w = 2000
       \<and> latestData w = rd 2000
       \<and> alarmOn w = alarmOn (updateAlarm (rd 2000) w0)
       \<and> buzzerOut w = [LOW, if alarmOn w then HIGH else LOW]
       \<and> length (buzzerOut w) = length (buzzerOut w0) + 1
       \<and> serial w = serial w0 @
            [PrintStr ''T='', PrintFloat (temperature (rd 2000)) 2,
             PrintStr ''C, H='', PrintFloat (humidity (rd 2000)) 2,
             PrintStr ''%, L='', PrintlnInt (lightRaw (rd 2000))]
       \<and> oled w = oled w0 @
            [showSummary zero False, showSummary zero False, showSummary zero False,
             showSummary (rd 2000) (alarmOn w)]
       \<and> length (oled w) = length (oled w0) + 4
       \<and> currentMode w = SUMMARY)"
proof -
  define W0 where "W0 = setup_sketch ok boot"
  define F0 where "F0 = showSummary \<lparr>temperature = Fin 0, humidity = Fin 0, lightRaw = 0\<rparr> False"
  define W1 where "W1 = W0\<lparr>lastDisplayMillis := millis 500, oled := oled W0 @ [F0]\<rparr>"
  define W2 where "W2 = W1\<lparr>lastDisplayMillis := millis 1000, oled := oled W1 @ [F0]\<rparr>"
  define W3 where "W3 = W2\<lparr>lastDisplayMillis := millis 1500, oled := oled W2 @ [F0]\<rparr>"
  define W4 where "W4 = loop (quiet_pass rd 2000) W3"
  note W0 = setup_sketch_fields [of ok, folded W0_def]
  have "run (map (quiet_pass rd) [0..<2101]) W0
        = run (map (quiet_pass rd) [501..<2101]) (loop (quiet_pass rd 500) W0)"
    by (rule run_skip [where r = 0 and d = 0]) (simp_all add: W0)
  also have "loop (quiet_pass rd 500) W0 = W1"
    using render_only_pass [of W0 0 0 500 rd] by (simp add: W0 W1_def F0_def)
  also have "run (map (quiet_pass rd) [501..<2101]) W1
        = run (map (quiet_pass rd) [1001..<2101]) (loop (quiet_pass rd 1000) W1)"
    by (rule run_skip [where r = 0 and d = 500]) (simp_all add: W0 W1_def)
  also have "loop (quiet_pass rd 1000) W1 = W2"
    using render_only_pass [of W1 0 500 1000 rd] by (simp add: W0 W1_def W2_def F0_def)
  also have "run (map (quiet_pass rd) [1001..<2101]) W2
        = run (map (quiet_pass rd) [1501..<2101]) (loop (quiet_pass rd 1500) W2)"
    by (rule run_skip [where r = 0 and d = 1000]) (simp_all add: W0 W1_def W2_def)
  also have "loop (quiet_pass rd 1500) W2 = W3"
    using render_only_pass [of W2 0 1000 1500 rd] by (simp add: W0 W1_def W2_def W3_def F0_def)
  also have "run (map (quiet_pass rd) [1501..<2101]) W3
        = run (map (quiet_pass rd) [2001..<2101]) (loop (quiet_pass rd 2000) W3)"
    by (rule run_skip [where r = 0 and d = 1500]) (simp_all add: W0 W1_def W2_def W3_def)
  finally have r1: "run (map (quiet_pass rd) [0..<2101]) W0
        = run (map (quiet_pass rd) [2001..<2101]) W4"
    by (simp add: W4_def)
  have W4: "W4 = W3\<lparr>lastReadMillis := millis 2000, latestData := rd 2000,
              alarmOn := alarmOn (updateAlarm (rd 2000) W3),
              buzzerOut := buzzerOut (updateAlarm (rd 2000) W3),
              serial := serial W3 @
                [PrintStr ''T='', PrintFloat (temperature (rd 2000)) 2,
                 PrintStr ''C, H='', PrintFloat (humidity (rd 2000)) 2,
                 PrintStr ''%, L='', PrintlnInt (lightRaw (rd 2000))],
              lastDisplayMillis := millis 2000,
              oled := oled W3 @ [showSummary (rd 2000) (alarmOn (updateAlarm (rd 2000) W3))]\<rparr>"
    unfolding W4_def
    by (rule sample_render_pass [where r = 0 and d = 1500])
       (simp_all add: W0 W1_def W2_def W3_def)
  have "run (map (quiet_pass rd) [2001..<2101]) W4 = W4"
    by (rule run_rest [where r = 2000 and d = 2000])
       (simp_all add: W4 W0 W1_def W2_def W3_def)
  with r1 have fin: "run (map (quiet_pass rd) [0..<2101]) W0 = W4"
    by simp
  have al: "alarmOn (updateAlarm (rd 2000) W3) = alarmOn (updateAlarm (rd 2000) W0)"
    by (simp add: updateAlarm_def Let_def)
  have bz: "buzzerOut (updateAlarm (rd 2000) W3)
            = [LOW, if alarmOn (updateAlarm (rd 2000) W0) then HIGH else LOW]"
    by (simp add: updateAlarm_def Let_def W0 W1_def W2_def W3_def)
  have W3: "oled W3 = oled W0 @ [F0, F0, F0]" "serial W3 = serial W0"
    "currentMode W3 = SUMMARY"
    by (simp_all add: W0 W1_def W2_def W3_def)
  have "lastReadMillis W4 = 2000" "latestData W4 = rd 2000"
    "alarmOn W4 = alarmOn (updateAlarm (rd 2000) W0)"
    "buzzerOut W4 = [LOW, if alarmOn W4 then HIGH else LOW]"
    "serial W4 = serial W0 @
            [PrintStr ''T='', PrintFloat (temperature (rd 2000)) 2,
             PrintStr ''C, H='', PrintFloat (humidity (rd 2000)) 2,
             PrintStr ''%, L='', PrintlnInt (lightRaw (rd 2000))]"
    "oled W4 = oled W0 @ [F0, F0, F0, showSummary (rd 2000) (alarmOn W4)]"
    "currentMode W4 = SUMMARY"
    by (simp_all add: W4 al bz W3 millis_def)
  then show ?thesis
    unfolding Let_def W0_def [symmetric] fin
    by (simp add: W0 F0_def)
qed

subsection \<open>Before the first sample\<close>

lemma displayStep_oled:
  "oled (displayStep now w) = oled w
   \<or> oled (displayStep now w) = oled w @ [showSummary (latestData w) (alarmOn w)]
   \<or> oled (displayStep now w) = oled w @ [showDetail (latestData w)]"
  by (simp add: displayStep_def Let_def)

lemma loop_before_first_sample:
  assumes "t_loop p < 2000" and "lastReadMillis w = 0"
  shows "latestData (loop p w) = latestData w \<and> alarmOn (loop p w) = alarmOn w
    \<and> buzzerOut (loop p w) = buzzerOut w \<and> lastReadMillis (loop p w) = 0
    \<and> (\<exists>fs. oled (loop p w) = oled w @ fs
          \<and> set fs \<subseteq> {showSummary (latestData w) (alarmOn w), showDetail (latestData w)})"
proof -
  from assms(1) have "unat (millis (t_loop p) - millis 0) = t_loop p"
    by (simp add: millis_since)
  with assms have "\<not> 2000 \<le> millis (t_loop p) - lastReadMillis w"
    by (simp add: word_le_nat_alt millis_def)
  then have rs: "readStep (millis (t_loop p)) (sensed p) w = w"
    by (simp add: readStep_def READ_INTERVAL_MS_def)
  then have lp: "loop p w = handleButton (level p) (millis (t_button p))
      (displayStep (millis (t_loop p)) w)"
    by (simp add: loop_def Let_def)
  from displayStep_oled [of "millis (t_loop p)" w]
  have "\<exists>fs. oled (loop p w) = oled w @ fs
          \<and> set fs \<subseteq> {showSummary (latestData w) (alarmOn w), showDetail (latestData w)}"
    by (auto simp: lp handleButton_outputs)
  with assms(2) show ?thesis
    by (simp add: lp handleButton_outputs displayStep_data)
qed

lemma run_before_first_sample:
  assumes "\<forall>p \<in> set ps. t_loop p < 2000" and "lastReadMillis w = 0"
  shows "latestData (run ps w) = latestData w \<and> alarmOn (run ps w) = alarmOn w
    \<and> buzzerOut (run ps w) = buzzerOut w
    \<and> (\<exists>fs. oled (run ps w) = oled w @ fs
          \<and> set fs \<subseteq> {showSummary (latestData w) (alarmOn w), showDetail (latestData w)})"
  using assms
proof (induction ps arbitrary: w)
  case Nil
  then show ?case by simp
next
  case (Cons p ps)
  from Cons.prems have t: "t_loop p < 2000" by simp
  note step = loop_before_first_sample [OF t Cons.prems(2)]
  from step obtain fs where fs: "oled (loop p w) = oled w @ fs"
    "set fs \<subseteq> {showSummary (latestData w) (alarmOn w), showDetail (latestData w)}"
    by blast
  from Cons.prems step have ih: "latestData (run ps (loop p w)) = latestData w"
    "alarmOn (run ps (loop p w)) = alarmOn w" "buzzerOut (run ps (loop p w)) = buzzerOut w"
    "\<exists>gs. oled (run ps (loop p w)) = oled (loop p w) @ gs
          \<and> set gs \<subseteq> {showSummary (latestData w) (alarmOn w), showDetail (latestData w)}"
    using Cons.IH [of "loop p w"] by simp_all
  then obtain gs where gs: "oled (run ps (loop p w)) = oled (loop p w) @ gs"
    "set gs \<subseteq> {showSummary (latestData w) (alarmOn w), showDetail (latestData w)}"
    by blast
  from fs gs have "oled (run ps (loop p w)) = oled w @ (fs @ gs)
    \<and> set (fs @ gs) \<subseteq> {showSummary (latestData w) (alarmOn w), showDetail (latestData w)}"
    by simp
  then have "\<exists>hs. oled (run ps (loop p w)) = oled w @ hs
    \<and> set hs \<subseteq> {showSummary (latestData w) (alarmOn w), showDetail (latestData w)}"
    by blast
  with ih show ?case by simp
qed

text \<open>
  C9. In a run from power-up whose passes all read a clock below 2000 ms, no sample is
  taken: the reading stays the zeroed one (temperature 0.0, humidity 0.0, light 0, not
  a not-a-number), every frame rendered shows it with the alarm off, the alarm flag
  stays false and the only level written to the buzzer is the low one of
  \<^verbatim>\<open>setup()\<close>. This is so although the threshold check, run on that reading, would
  raise the alarm, the light 0 being at most 1000.
\<close>

theorem before_first_sample:
  "(\<forall>p \<in> set ps. t_loop p < 2000) \<longrightarrow>
   (let w0 = setup_sketch ok boot;
        w = run ps w0;
        zero = \<lparr>temperature = Fin 0, humidity = Fin 0, lightRaw = 0\<rparr>
    in latestData w = zero
       \<and> \<not> alarmOn w
       \<and> buzzerOut w = [LOW]
       \<and> HIGH \<notin> set (buzzerOut w)
       \<and> (\<exists>fs. oled w = oled w0 @ fs
             \<and> set fs \<subseteq> {showSummary zero False, showDetail zero})
       \<and> alarmOn (updateAlarm (latestData w) w))"
proof
  assume a: "\<forall>p \<in> set ps. t_loop p < 2000"
  have "lastReadMillis (setup_sketch ok boot) = 0"
    by (simp add: setup_sketch_fields millis_def)
  from run_before_first_sample [OF a this]
  show "let w0 = setup_sketch ok boot;
        w = run ps w0;
        zero = \<lparr>temperature = Fin 0, humidity = Fin 0, lightRaw = 0\<rparr>
    in latestData w = zero
       \<and> \<not> alarmOn w
       \<and> buzzerOut w = [LOW]
       \<and> HIGH \<notin> set (buzzerOut w)
       \<and> (\<exists>fs. oled w = oled w0 @ fs
             \<and> set fs \<subseteq> {showSummary zero False, showDetail zero})
       \<and> alarmOn (updateAlarm (latestData w) w)"
    by (simp add: Let_def setup_sketch_fields updateAlarm_def LIGHT_LOW_THRESHOLD_def
        HIGH_def LOW_def)
qed

theorem before_first_sample_witness:
  "buzzerOut (run press_release_press (setup_sketch True boot)) = [LOW]
   \<and> latestData (run press_release_press (setup_sketch True boot))
       = \<lparr>temperature = Fin 0, humidity = Fin 0, lightRaw = 0\<rparr>
   \<and> \<not> alarmOn (run press_release_press (setup_sketch True boot))"
proof -
  have "\<forall>p \<in> set press_release_press. t_loop p < 2000"
    by (simp add: press_release_press_def)
  with before_first_sample [of press_release_press True] show ?thesis
    by (simp add: Let_def)
qed

section \<open>Clock wrap-around\<close>

lemma elapsed_ge: "e < 2 ^ 32 \<Longrightarrow> (k::ulong) \<le> millis (t0 + e) - millis t0 \<longleftrightarrow> unat k \<le> e"
  by (simp add: word_le_nat_alt millis_elapsed)

lemma elapsed_gt: "e < 2 ^ 32 \<Longrightarrow> (k::ulong) < millis (t0 + e) - millis t0 \<longleftrightarrow> unat k < e"
  by (simp add: word_less_nat_alt millis_elapsed)

lemma readStep_fires:
  "readStep now rd w = w \<longleftrightarrow> \<not> 2000 \<le> now - lastReadMillis w"
proof (cases "2000 \<le> now - lastReadMillis w")
  case True
  then have "buzzerOut (readStep now rd w) \<noteq> buzzerOut w"
    by (simp add: readStep_def Let_def READ_INTERVAL_MS_def updateAlarm_def)
  with True show ?thesis by auto
next
  case False
  then show ?thesis by (simp add: readStep_def READ_INTERVAL_MS_def)
qed

lemma displayStep_fires:
  "displayStep now w = w \<longleftrightarrow> \<not> 500 \<le> now - lastDisplayMillis w"
proof (cases "500 \<le> now - lastDisplayMillis w")
  case True
  then have "oled (displayStep now w) \<noteq> oled w"
    by (simp add: displayStep_def Let_def DISPLAY_INTERVAL_MS_def)
  with True show ?thesis by auto
next
  case False
  then show ?thesis by (simp add: displayStep_def DISPLAY_INTERVAL_MS_def)
qed

lemma handleButton_fires:
  "handleButton state now w = w \<longleftrightarrow>
     \<not> (state \<noteq> lastButtonState w \<and> 200 < now - lastButtonChange w)"
proof (cases "state \<noteq> lastButtonState w \<and> 200 < now - lastButtonChange w")
  case True
  then have "lastButtonState (handleButton state now w) \<noteq> lastButtonState w"
    by (simp add: handleButton_def Let_def BUTTON_DEBOUNCE_MS_def)
  with True show ?thesis by auto
next
  case False
  then show ?thesis by (auto simp: handleButton_def BUTTON_DEBOUNCE_MS_def)
qed

text \<open>
  C10. The three gates subtract two \<^verbatim>\<open>unsigned long\<close> clock values, modulo \<open>2 ^ 32\<close>.
  When the true time since the stored timestamp is \<open>e < 2 ^ 32\<close>, the difference is
  \<open>e\<close> whatever the clock values are, also when the clock has wrapped in between: the
  sample gate opens exactly when \<open>2000 \<le> e\<close>, the render gate when \<open>500 \<le> e\<close>, the
  debounce gate when \<open>200 < e\<close>, and the three steps fire accordingly.
\<close>

theorem elapsed_time_wraps:
  "e < 2 ^ 32 \<longrightarrow>
     unat (millis (t0 + e) - millis t0) = e
     \<and> (READ_INTERVAL_MS \<le> millis (t0 + e) - millis t0 \<longleftrightarrow> 2000 \<le> e)
     \<and> (DISPLAY_INTERVAL_MS \<le> millis (t0 + e) - millis t0 \<longleftrightarrow> 500 \<le> e)
     \<and> (BUTTON_DEBOUNCE_MS < millis (t0 + e) - millis t0 \<longleftrightarrow> 200 < e)
     \<and> (lastReadMillis w = millis t0 \<longrightarrow>
          (readStep (millis (t0 + e)) rd w = w \<longleftrightarrow> e < 2000))
     \<and> (lastDisplayMillis w = millis t0 \<longrightarrow>
          (displayStep (millis (t0 + e)) w = w \<longleftrightarrow> e < 500))
     \<and> (lastButtonChange w = millis t0 \<longrightarrow>
          (handleButton state (millis (t0 + e)) w = w \<longleftrightarrow>
             state = lastButtonState w \<or> e \<le> 200))"
  by (auto simp: elapsed_ge elapsed_gt millis_elapsed readStep_fires displayStep_fires
      handleButton_fires READ_INTERVAL_MS_def DISPLAY_INTERVAL_MS_def BUTTON_DEBOUNCE_MS_def)

theorem elapsed_time_wraps_witness:
  "millis (4294967196 + 2000) = 1900
   \<and> unat (millis (4294967196 + 2000) - millis 4294967196) = 2000
   \<and> readStep 1900 sample_reading before_wrap \<noteq> before_wrap
   \<and> displayStep 1900 before_wrap \<noteq> before_wrap
   \<and> handleButton HIGH 1900 before_wrap \<noteq> before_wrap
   \<and> readStep (millis (4294967196 + 1999)) sample_reading before_wrap = before_wrap"
proof -
  have m: "millis (4294967196 + 2000) = 1900"
    by (simp add: millis_def)
  have "(2000::nat) < 2 ^ 32" "(1999::nat) < 2 ^ 32" by simp_all
  with elapsed_time_wraps [of 2000 4294967196 before_wrap sample_reading HIGH]
    elapsed_time_wraps [of 1999 4294967196 before_wrap sample_reading HIGH]
  show ?thesis
    unfolding m by (simp add: before_wrap_def boot_def LOW_def HIGH_def)
qed

end
